theory Spec2Isabelle
  imports Complex_Main "HOL-Library.Char_ord" "HOL-Library.List_Lexorder"
    "HOL-Library.Multiset"
begin

section \<open>Expense forecasting: \<open>predict_expenses\<close> of \<open>backend/api_server.py\<close>\<close>

text \<open>
  The embedding follows \<open>predict_expenses\<close> line by line. Python floats are read as
  exact real numbers (no NaN, no infinities, no rounding error of the binary format);
  a pandas \<open>NaN\<close> only ever appears as a missing or unparsable cell, which the code
  replaces by 0 before using it.

  What the code takes from pandas is a parameter of the model, so every theorem holds
  for any behaviour of it:
  \<^item> \<open>to_numeric_str\<close>: the number \<open>pd.to_numeric\<close> reads from a string cell
    (\<open>None\<close> where \<open>errors='coerce'\<close> gives NaN);
  \<^item> \<open>to_datetime\<close>: year and month of the timestamp \<open>pd.to_datetime\<close> parses
    from the month field (\<open>None\<close> where it raises);
  \<^item> \<open>argsort\<close>: the indexer that \<open>sort_values\<close> gets from numpy for the month
    column, the positions of the rows in ascending order of their months. The default
    kind, quicksort, is not stable: the order of rows with one and the same month is
    numpy's choice.
  The unpickled \<open>model_data\<close> is a parameter as well: its \<open>feature_columns\<close> and,
  for each category, the composition of the fitted scaler and the fitted regressor.
\<close>

subsection \<open>Data\<close>

datatype cell = Num real | Str string | Null

record monthly_record =
  month :: string
  amounts :: "string \<rightharpoonup> cell"

record library =
  to_numeric_str :: "string \<Rightarrow> real option"
  to_datetime :: "string \<Rightarrow> (nat \<times> nat) option"
  argsort :: "string list \<Rightarrow> nat list"

record model_data =
  feature_columns :: "string list"
  predict_scaled :: "string \<Rightarrow> real list \<Rightarrow> real"

datatype error = ModelNotLoaded | BadMonth | MissingFeatureColumn

datatype jvalue = VDict "(string \<times> real) list" | VNum real | VStr string

type_synonym result = "(string \<times> jvalue) list"

definition EXPENSE_CATEGORIES :: "string list" where
  "EXPENSE_CATEGORIES =
     [''Groceries'', ''Transportation'', ''Entertainment'', ''Dining Out'',
      ''Utilities'', ''Shopping'', ''Healthcare'', ''Subscriptions'']"

subsection \<open>The data frame\<close>

text \<open>
  \<open>pd.to_numeric(df[cat], errors='coerce').fillna(0)\<close> on one cell. A key missing
  from a record is NaN in the frame and 0 after \<open>df.fillna(0)\<close>; a category that no
  record has is set to 0 in every row (\<open>df[cat] = 0\<close>).
\<close>

fun to_numeric :: "(string \<Rightarrow> real option) \<Rightarrow> cell option \<Rightarrow> real" where
  "to_numeric p None = 0"
| "to_numeric p (Some Null) = 0"
| "to_numeric p (Some (Num x)) = x"
| "to_numeric p (Some (Str s)) = (case p s of None \<Rightarrow> 0 | Some x \<Rightarrow> x)"

definition column :: "library \<Rightarrow> monthly_record list \<Rightarrow> string \<Rightarrow> real list" where
  "column lib df cat = map (\<lambda>r. to_numeric (to_numeric_str lib) (amounts r cat)) df"

text \<open>\<open>cat in df.columns\<close> for the frame built from the records.\<close>

definition in_columns :: "monthly_record list \<Rightarrow> string \<Rightarrow> bool" where
  "in_columns df cat = list_ex (\<lambda>r. amounts r cat \<noteq> None) df"

definition user_categories :: "library \<Rightarrow> monthly_record list \<Rightarrow> string set" where
  "user_categories lib df =
     set (filter (\<lambda>cat. in_columns df cat \<and> sum_list (column lib df cat) > 0)
            EXPENSE_CATEGORIES)"

text \<open>
  \<open>df.sort_values('month')\<close>: pandas takes the rows in the order of the indexer that
  \<open>argsort\<close> returns for the month column; the month fields are strings, compared as
  Python compares strings. The indexer of an argsort is a permutation of the positions
  that puts the months in ascending order; only the order among equal months is open.
  A list that is no such indexer is not the answer of any argsort: to keep the function
  total the model then takes the rows in the stable order.
\<close>

definition sort_values :: "library \<Rightarrow> monthly_record list \<Rightarrow> monthly_record list" where
  "sort_values lib df =
     (let keys = map month df;
          indexer = argsort lib keys
      in if sort indexer = [0..<length df] \<and> sorted (map (\<lambda>i. keys ! i) indexer)
         then map (\<lambda>i. df ! i) indexer
         else sort_key month df)"

definition tail :: "nat \<Rightarrow> 'a list \<Rightarrow> 'a list" where
  "tail n xs = drop (length xs - n) xs"

subsection \<open>Feature building\<close>

definition mean :: "real list \<Rightarrow> real" where
  "mean xs = sum_list xs / real (length xs)"

definition category_features :: "real list \<Rightarrow> string \<Rightarrow> (string \<times> real) list" where
  "category_features values category =
     [(category @ ''_lag1'',
         if length values \<ge> 1 then values ! (length values - 1) else 0),
      (category @ ''_lag2'',
         if length values \<ge> 2 then values ! (length values - 2) else 0),
      (category @ ''_lag3'',
         if length values \<ge> 3 then values ! (length values - 3) else 0),
      (category @ ''_rolling_avg_3'', mean values)]"

text \<open>
  Lines 84 to 104: the frame sorted by month, the date of its last row, the wrapped
  month number and the feature dictionary, whose keys are \<open>month_num\<close> and four
  entries per category, computed from the last three rows.
\<close>

record feature_block =
  sorted_df :: "monthly_record list"
  last_year :: nat
  next_month_num :: nat
  features :: "(string \<times> real) list"

definition build_features :: "library \<Rightarrow> monthly_record list \<Rightarrow> error + feature_block" where
  "build_features lib user_history =
     (let df = sort_values lib user_history;
          last_3_months = tail 3 df
      in (case to_datetime lib (month (last df)) of
            None \<Rightarrow> Inl BadMonth
          | Some (year, last_month) \<Rightarrow>
              (let next_month = last_month mod 12 + 1
               in Inr \<lparr>sorted_df = df, last_year = year, next_month_num = next_month,
                        features =
                          (''month_num'', real next_month) #
                          concat (map (\<lambda>category.
                                         category_features
                                           (column lib last_3_months category) category)
                                    EXPENSE_CATEGORIES)\<rparr>)))"

text \<open>
  \<open>pd.DataFrame([features])[model_data['feature_columns']]\<close>: the features in the
  order of the trained columns; a column that is not a feature raises KeyError.
\<close>

definition select_columns :: "(string \<times> real) list \<Rightarrow> string list \<Rightarrow> real list option" where
  "select_columns fs cols = those (map (map_of fs) cols)"

subsection \<open>Rounding and formatting\<close>

text \<open>Python's \<open>round(x, 2)\<close> on an exact value: nearest hundredth, ties to even.\<close>

definition round_half_even :: "real \<Rightarrow> int" where
  "round_half_even x =
     (let f = \<lfloor>x\<rfloor>; d = x - of_int f
      in if d < 1 / 2 then f else if d > 1 / 2 then f + 1
         else if even f then f else f + 1)"

definition round2 :: "real \<Rightarrow> real" where
  "round2 x = of_int (round_half_even (x * 100)) / 100"

definition digit_char :: "nat \<Rightarrow> char" where
  "digit_char d = char_of (48 + d)"

fun str_nat :: "nat \<Rightarrow> string" where
  "str_nat n = (if n < 10 then [digit_char n] else str_nat (n div 10) @ [digit_char (n mod 10)])"

declare str_nat.simps [simp del]

text \<open>The format \<open>{n:02d}\<close>: at least two digits, padded with zeros on the left.\<close>

definition fmt_02d :: "nat \<Rightarrow> string" where
  "fmt_02d n = (let s = str_nat n in replicate (2 - length s) CHR ''0'' @ s)"

subsection \<open>Confidence\<close>

text \<open>\<open>Series.std()\<close> of pandas: the sample standard deviation (\<open>ddof = 1\<close>).\<close>

definition std :: "real list \<Rightarrow> real" where
  "std xs = sqrt (sum_list (map (\<lambda>x. (x - mean xs)\<^sup>2) xs) / (real (length xs) - 1))"

definition cv :: "real list \<Rightarrow> real" where
  "cv xs = std xs / (mean xs + 1 / 1000000)"

text \<open>
  By the time the confidence is computed every category is a column of the frame
  (lines 77 to 82), so \<open>cat in df.columns\<close> holds there and only the sum decides.
\<close>

definition category_variances :: "library \<Rightarrow> monthly_record list \<Rightarrow> real list" where
  "category_variances lib df =
     map (\<lambda>cat. cv (column lib df cat))
       (filter (\<lambda>cat. sum_list (column lib df cat) > 0) EXPENSE_CATEGORIES)"

definition confidence_of :: "nat \<Rightarrow> real list \<Rightarrow> string" where
  "confidence_of n cvs =
     (if n \<ge> 6 then
        (if cvs \<noteq> [] then
           (let avg_cv = mean cvs
            in if avg_cv < 3 / 10 then ''high''
               else if avg_cv > 6 / 10 then ''low'' else ''medium'')
         else ''medium'')
      else ''medium'')"

subsection \<open>The forecast\<close>

definition predictions_of ::
  "model_data \<Rightarrow> string set \<Rightarrow> real list \<Rightarrow> (string \<times> real) list" where
  "predictions_of md user_cats X =
     map (\<lambda>category.
            (category,
             if category \<in> user_cats
             then max 0 (round2 (predict_scaled md category X))
             else 0))
       EXPENSE_CATEGORIES"

definition insufficient_history :: result where
  "insufficient_history =
     [(''predictions'', VDict (map (\<lambda>cat. (cat, 0)) EXPENSE_CATEGORIES)),
      (''total'', VNum 0),
      (''confidence'', VStr ''low''),
      (''message'', VStr ''Need at least 3 months of history for accurate predictions'')]"

definition predict_expenses ::
  "library \<Rightarrow> model_data option \<Rightarrow> monthly_record list \<Rightarrow> error + result" where
  "predict_expenses lib model_data user_history =
     (case model_data of
        None \<Rightarrow> Inl ModelNotLoaded
      | Some md \<Rightarrow>
          (if length user_history < 3 then Inr insufficient_history
           else
             (let user_cats = user_categories lib user_history
              in (case build_features lib user_history of
                    Inl e \<Rightarrow> Inl e
                  | Inr fb \<Rightarrow>
                      (case select_columns (features fb) (feature_columns md) of
                         None \<Rightarrow> Inl MissingFeatureColumn
                       | Some X \<Rightarrow>
                           (let predictions = predictions_of md user_cats X;
                                total = round2 (sum_list (map snd predictions));
                                confidence =
                                  confidence_of (length user_history)
                                    (category_variances lib (sorted_df fb))
                            in Inr [(''predictions'', VDict predictions),
                                    (''total'', VNum total),
                                    (''confidence'', VStr confidence),
                                    (''history_months'',
                                       VNum (real (length user_history))),
                                    (''next_month'',
                                       VStr (str_nat (last_year fb) @ ''-'' @
                                             fmt_02d (next_month_num fb)))]))))))"

subsection \<open>The trained schema\<close>

text \<open>
  \<open>prepare_features\<close> of \<open>train_model.py\<close> fixes \<open>feature_columns\<close> at training
  time: \<open>month_num\<close>, then the four columns of each category.
\<close>

definition feature_names :: "string list" where
  "feature_names =
     ''month_num'' #
     concat (map (\<lambda>category.
                    [category @ ''_lag1'', category @ ''_lag2'', category @ ''_lag3'',
                     category @ ''_rolling_avg_3''])
               EXPENSE_CATEGORIES)"

subsection \<open>Reading a result\<close>

definition get_predictions :: "result \<Rightarrow> (string \<times> real) list option" where
  "get_predictions res =
     (case map_of res ''predictions'' of Some (VDict d) \<Rightarrow> Some d | _ \<Rightarrow> None)"

definition get_num :: "result \<Rightarrow> string \<Rightarrow> real option" where
  "get_num res k = (case map_of res k of Some (VNum x) \<Rightarrow> Some x | _ \<Rightarrow> None)"

definition get_str :: "result \<Rightarrow> string \<Rightarrow> string option" where
  "get_str res k = (case map_of res k of Some (VStr x) \<Rightarrow> Some x | _ \<Rightarrow> None)"

text \<open>The order of the confidence labels: low, medium, high.\<close>

definition tier :: "string \<Rightarrow> nat" where
  "tier c = (if c = ''high'' then 2 else if c = ''medium'' then 1 else 0)"

text \<open>The categories with a positive coerced historical sum.\<close>

definition active_categories :: "library \<Rightarrow> monthly_record list \<Rightarrow> string list" where
  "active_categories lib h =
     filter (\<lambda>cat. sum_list (column lib h cat) > 0) EXPENSE_CATEGORIES"

subsection \<open>Sample inputs\<close>

text \<open>
  \<open>pd.to_datetime\<close> on the month strings of the API, \<open>YYYY-MM\<close>; the sample
  library below is used on such months and on cells that are numbers only.
\<close>

definition is_digit :: "char \<Rightarrow> bool" where
  "is_digit c = (48 \<le> (of_char c :: nat) \<and> (of_char c :: nat) \<le> 57)"

definition digit_val :: "char \<Rightarrow> nat" where
  "digit_val c = of_char c - 48"

fun year_month :: "string \<Rightarrow> (nat \<times> nat) option" where
  "year_month [y1, y2, y3, y4, sep, m1, m2] =
     (if sep = CHR ''-'' \<and> list_all is_digit [y1, y2, y3, y4, m1, m2]
      then (let y = 1000 * digit_val y1 + 100 * digit_val y2 + 10 * digit_val y3
                    + digit_val y4;
                m = 10 * digit_val m1 + digit_val m2
            in if 1 \<le> m \<and> m \<le> 12 then Some (y, m) else None)
      else None)"
| "year_month _ = None"

text \<open>
  The argsort of numpy for an array of Python strings with kind quicksort
  (\<open>npy_aquicksort\<close>): \<open>v\<close> is the array of keys and \<open>ts\<close> the array of positions that is
  permuted. A segment of more than 17 positions is partitioned around the median of its
  first, middle and last key, the larger part is pushed on a stack and the smaller one is
  continued with; a segment of at most 17 positions is sorted by insertion. The two scans
  of the partition stop at the keys the median step has put at both ends; here they also
  stop at the ends of the array. The loops that the C code leaves by \<open>break\<close> run on
  fuel, and the heap sort that numpy switches to when the depth counter gets negative is
  not modelled: the result is \<open>None\<close> where the fuel runs out or the heap sort is
  reached, and \<open>numpy_argsort\<close> then has no indexer to give.
\<close>

definition swap :: "nat \<Rightarrow> nat \<Rightarrow> nat list \<Rightarrow> nat list" where
  "swap i j ts = ts[i := ts ! j, j := ts ! i]"

fun msb :: "nat \<Rightarrow> nat" where
  "msb n = (if n < 2 then 0 else Suc (msb (n div 2)))"

declare msb.simps [simp del]

function scan_up :: "string list \<Rightarrow> string \<Rightarrow> nat list \<Rightarrow> nat \<Rightarrow> nat" where
  "scan_up v vp ts i =
     (if i < length ts \<and> v ! (ts ! i) < vp then scan_up v vp ts (Suc i) else i)"
  by pat_completeness auto
termination
  by (relation "measure (\<lambda>(v, vp, ts, i). length ts - i)") auto

declare scan_up.simps [simp del]

primrec scan_down :: "string list \<Rightarrow> string \<Rightarrow> nat list \<Rightarrow> nat \<Rightarrow> nat" where
  "scan_down v vp ts 0 = 0"
| "scan_down v vp ts (Suc j) =
     (if vp < v ! (ts ! Suc j) then scan_down v vp ts j else Suc j)"

primrec partition_loop ::
  "nat \<Rightarrow> string list \<Rightarrow> string \<Rightarrow> nat list \<Rightarrow> nat \<Rightarrow> nat \<Rightarrow> (nat list \<times> nat) option" where
  "partition_loop 0 v vp ts i j = None"
| "partition_loop (Suc fuel) v vp ts i j =
     (let i' = scan_up v vp ts (Suc i);
          j' = scan_down v vp ts (j - 1)
      in if i' \<ge> j' then Some (ts, i')
         else partition_loop fuel v vp (swap i' j' ts) i' j')"

definition median_of_3 :: "string list \<Rightarrow> nat list \<Rightarrow> nat \<Rightarrow> nat \<Rightarrow> nat \<Rightarrow> nat list" where
  "median_of_3 v ts pl pm pr =
     (let ts1 = (if v ! (ts ! pm) < v ! (ts ! pl) then swap pm pl ts else ts);
          ts2 = (if v ! (ts1 ! pr) < v ! (ts1 ! pm) then swap pr pm ts1 else ts1)
      in if v ! (ts2 ! pm) < v ! (ts2 ! pl) then swap pm pl ts2 else ts2)"

definition partition_segment ::
  "string list \<Rightarrow> nat list \<Rightarrow> nat \<Rightarrow> nat \<Rightarrow> (nat list \<times> nat) option" where
  "partition_segment v ts pl pr =
     (let pm = pl + (pr - pl) div 2;
          ts3 = median_of_3 v ts pl pm pr;
          vp = v ! (ts3 ! pm)
      in (case partition_loop (length ts) v vp (swap pm (pr - 1) ts3) pl (pr - 1) of
            None \<Rightarrow> None
          | Some (ts5, i) \<Rightarrow> Some (swap i (pr - 1) ts5, i)))"

primrec shift_right ::
  "string list \<Rightarrow> string \<Rightarrow> nat \<Rightarrow> nat list \<Rightarrow> nat \<Rightarrow> nat list \<times> nat" where
  "shift_right v vp pl ts 0 = (ts, 0)"
| "shift_right v vp pl ts (Suc k) =
     (if Suc k > pl \<and> vp < v ! (ts ! k)
      then shift_right v vp pl (ts[Suc k := ts ! k]) k
      else (ts, Suc k))"

definition insert_at :: "string list \<Rightarrow> nat \<Rightarrow> nat list \<Rightarrow> nat \<Rightarrow> nat list" where
  "insert_at v pl ts i =
     (let vi = ts ! i;
          (ts', j) = shift_right v (v ! vi) pl ts i
      in ts'[j := vi])"

definition insertion_sort :: "string list \<Rightarrow> nat list \<Rightarrow> nat \<Rightarrow> nat \<Rightarrow> nat list" where
  "insertion_sort v ts pl pr = foldl (insert_at v pl) ts [Suc pl..<Suc pr]"

primrec aquicksort_loop ::
  "nat \<Rightarrow> string list \<Rightarrow> nat list \<Rightarrow> nat \<Rightarrow> nat \<Rightarrow> int \<Rightarrow> (nat \<times> nat \<times> int) list
     \<Rightarrow> nat list option" where
  "aquicksort_loop 0 v ts pl pr cdepth stack = None"
| "aquicksort_loop (Suc fuel) v ts pl pr cdepth stack =
     (if pr - pl > 16 then
        (case partition_segment v ts pl pr of
           None \<Rightarrow> None
         | Some (ts', i) \<Rightarrow>
             (if i - pl < pr - i
              then aquicksort_loop fuel v ts' pl (i - 1) (cdepth - 1)
                     ((i + 1, pr, cdepth - 1) # stack)
              else aquicksort_loop fuel v ts' (i + 1) pr (cdepth - 1)
                     ((pl, i - 1, cdepth - 1) # stack)))
      else
        (case stack of
           [] \<Rightarrow> Some (insertion_sort v ts pl pr)
         | (l, r, d) # rest \<Rightarrow>
             (if d < 0 then None
              else aquicksort_loop fuel v (insertion_sort v ts pl pr) l r d rest)))"

definition npy_aquicksort :: "string list \<Rightarrow> nat list option" where
  "npy_aquicksort v =
     aquicksort_loop (2 * length v + 1) v [0..<length v] 0 (length v - 1)
       (2 * int (msb (length v))) []"

definition numpy_argsort :: "string list \<Rightarrow> nat list" where
  "numpy_argsort v = (case npy_aquicksort v of Some ts \<Rightarrow> ts | None \<Rightarrow> [])"

definition sample_lib :: library where
  "sample_lib =
     \<lparr>to_numeric_str = (\<lambda>s. None), to_datetime = year_month, argsort = numpy_argsort\<rparr>"

text \<open>A stand-in for a trained bank: it answers the latest Groceries amount plus 0.125.\<close>

definition sample_model :: model_data where
  "sample_model =
     \<lparr>feature_columns = feature_names, predict_scaled = (\<lambda>category X. X ! 1 + 1 / 8)\<rparr>"

definition groceries :: "string \<Rightarrow> real \<Rightarrow> monthly_record" where
  "groceries m x = \<lparr>month = m, amounts = [''Groceries'' \<mapsto> Num x]\<rparr>"

definition nothing :: "string \<Rightarrow> monthly_record" where
  "nothing m = \<lparr>month = m, amounts = Map.empty\<rparr>"

definition history_2 :: "monthly_record list" where
  "history_2 = [groceries ''2024-01'' 300, groceries ''2024-02'' 310]"

definition history_dec :: "monthly_record list" where
  "history_dec =
     [groceries ''2024-12'' 320, groceries ''2024-10'' 300, groceries ''2024-11'' 310]"

definition history_flat :: "monthly_record list" where
  "history_flat = map (\<lambda>m. groceries m 300)
     [''2024-01'', ''2024-02'', ''2024-03'', ''2024-04'', ''2024-05'', ''2024-06'']"

definition history_varied :: "monthly_record list" where
  "history_varied =
     [groceries ''2024-01'' 100, groceries ''2024-02'' 500, groceries ''2024-03'' 100,
      groceries ''2024-04'' 500, groceries ''2024-05'' 100, groceries ''2024-06'' 500]"

text \<open>
  Eighteen records in ascending order of their months, as \<open>generate_training_data.py\<close>
  dates them (every 30 days, here from 2023-01-03 on): August 2023 comes twice.
\<close>

definition history_18 :: "monthly_record list" where
  "history_18 =
     [groceries ''2023-01'' 301, groceries ''2023-02'' 302, groceries ''2023-03'' 303,
      groceries ''2023-04'' 304, groceries ''2023-05'' 305, groceries ''2023-06'' 306,
      groceries ''2023-07'' 307, groceries ''2023-08'' 308, groceries ''2023-08'' 309,
      groceries ''2023-09'' 310, groceries ''2023-10'' 311, groceries ''2023-11'' 312,
      groceries ''2023-12'' 313, groceries ''2024-01'' 314, groceries ''2024-02'' 315,
      groceries ''2024-03'' 316, groceries ''2024-04'' 317, groceries ''2024-05'' 318]"

definition months_18 :: "string list" where
  "months_18 =
     [''2023-01'', ''2023-02'', ''2023-03'', ''2023-04'', ''2023-05'', ''2023-06'',
      ''2023-07'', ''2023-08'', ''2023-08'', ''2023-09'', ''2023-10'', ''2023-11'',
      ''2023-12'', ''2024-01'', ''2024-02'', ''2024-03'', ''2024-04'', ''2024-05'']"

text \<open>The same records with the two of August 2023 exchanged.\<close>

definition history_18_swapped :: "monthly_record list" where
  "history_18_swapped =
     [groceries ''2023-01'' 301, groceries ''2023-02'' 302, groceries ''2023-03'' 303,
      groceries ''2023-04'' 304, groceries ''2023-05'' 305, groceries ''2023-06'' 306,
      groceries ''2023-07'' 307, groceries ''2023-08'' 309, groceries ''2023-08'' 308,
      groceries ''2023-09'' 310, groceries ''2023-10'' 311, groceries ''2023-11'' 312,
      groceries ''2023-12'' 313, groceries ''2024-01'' 314, groceries ''2024-02'' 315,
      groceries ''2024-03'' 316, groceries ''2024-04'' 317, groceries ''2024-05'' 318]"

definition history_empty :: "monthly_record list" where
  "history_empty = map nothing
     [''2024-01'', ''2024-02'', ''2024-03'', ''2024-04'', ''2024-05'', ''2024-06'']"

section \<open>Properties\<close>

subsection \<open>When the forecast returns\<close>

lemma those_map_Some:
  "\<forall>x\<in>set xs. f x \<noteq> None \<Longrightarrow> those (map f xs) = Some (map (\<lambda>x. the (f x)) xs)"
  by (induction xs) (auto split: option.splits)

lemma select_columns_Some:
  assumes "set cols \<subseteq> fst ` set fs"
  shows "select_columns fs cols = Some (map (\<lambda>c. the (map_of fs c)) cols)"
  unfolding select_columns_def
proof (rule those_map_Some, rule ballI)
  fix x assume "x \<in> set cols"
  with assms have "x \<in> fst ` set fs" by blast
  then show "map_of fs x \<noteq> None" by (simp add: map_of_eq_None_iff)
qed

lemma map_fst_category_features:
  "map fst (category_features vs c) =
     [c @ ''_lag1'', c @ ''_lag2'', c @ ''_lag3'', c @ ''_rolling_avg_3'']"
  by (simp add: category_features_def)

lemma map_fst_concat_features:
  "map fst (concat (map (\<lambda>c. category_features (g c) c) cs)) =
   concat (map (\<lambda>c. [c @ ''_lag1'', c @ ''_lag2'', c @ ''_lag3'', c @ ''_rolling_avg_3'']) cs)"
  by (induction cs) (simp_all add: map_fst_category_features)

lemma build_features_Inr:
  assumes "to_datetime lib (month (last (sort_values lib h))) = Some (y, m)"
  shows "\<exists>fb. build_features lib h = Inr fb \<and> sorted_df fb = sort_values lib h \<and>
           last_year fb = y \<and> next_month_num fb = m mod 12 + 1 \<and>
           map fst (features fb) = feature_names \<and>
           map_of (features fb) ''month_num'' = Some (real (m mod 12 + 1))"
  using assms
  by (simp add: build_features_def Let_def feature_names_def map_fst_concat_features)

lemma predict_expenses_Inr:
  assumes "3 \<le> length h"
    and "build_features lib h = Inr fb"
    and "select_columns (features fb) (feature_columns md) = Some X"
  shows "predict_expenses lib (Some md) h =
     Inr [(''predictions'', VDict (predictions_of md (user_categories lib h) X)),
          (''total'', VNum (round2 (sum_list (map snd
              (predictions_of md (user_categories lib h) X))))),
          (''confidence'', VStr (confidence_of (length h)
              (category_variances lib (sorted_df fb)))),
          (''history_months'', VNum (real (length h))),
          (''next_month'', VStr (str_nat (last_year fb) @ ''-'' @
              fmt_02d (next_month_num fb)))]"
  using assms by (simp add: predict_expenses_def Let_def)

lemma forecast_returns:
  assumes "3 \<le> length h"
    and "to_datetime lib (month (last (sort_values lib h))) = Some (y, m)"
    and "set (feature_columns md) \<subseteq> set feature_names"
  shows "\<exists>fb X. build_features lib h = Inr fb \<and> sorted_df fb = sort_values lib h \<and>
           last_year fb = y \<and> next_month_num fb = m mod 12 + 1 \<and>
           select_columns (features fb) (feature_columns md) = Some X \<and>
           predict_expenses lib (Some md) h =
             Inr [(''predictions'', VDict (predictions_of md (user_categories lib h) X)),
                  (''total'', VNum (round2 (sum_list (map snd
                      (predictions_of md (user_categories lib h) X))))),
                  (''confidence'', VStr (confidence_of (length h)
                      (category_variances lib (sort_values lib h)))),
                  (''history_months'', VNum (real (length h))),
                  (''next_month'', VStr (str_nat y @ ''-'' @ fmt_02d (m mod 12 + 1)))]"
proof -
  from build_features_Inr [OF assms(2)] obtain fb where
    fb: "build_features lib h = Inr fb" "sorted_df fb = sort_values lib h" "last_year fb = y"
      "next_month_num fb = m mod 12 + 1" "map fst (features fb) = feature_names"
    by blast
  have "set (feature_columns md) \<subseteq> fst ` set (features fb)"
    using assms(3) fb(5) by (metis set_map)
  then have X: "select_columns (features fb) (feature_columns md) =
      Some (map (\<lambda>c. the (map_of (features fb) c)) (feature_columns md))"
    by (rule select_columns_Some)
  show ?thesis
    using predict_expenses_Inr [OF assms(1) fb(1) X] fb X by auto
qed

lemma sort_values_cases:
  "(\<exists>ix. sort ix = [0..<length df] \<and> sorted (map (\<lambda>i. map month df ! i) ix) \<and>
      sort_values lib df = map (\<lambda>i. df ! i) ix) \<or>
   sort_values lib df = sort_key month df"
  by (auto simp: sort_values_def Let_def)

lemma mset_sort_values: "mset (sort_values lib df) = mset df"
  using sort_values_cases [of df lib]
proof (elim disjE exE conjE)
  fix ix
  assume ix: "sort ix = [0..<length df]"
    and s: "sort_values lib df = map (\<lambda>i. df ! i) ix"
  have "mset ix = mset (sort ix)"
    by simp
  also have "\<dots> = mset [0..<length df]"
    by (simp only: ix)
  finally have "mset (map (\<lambda>i. df ! i) ix) = mset (map (\<lambda>i. df ! i) [0..<length df])"
    by (simp only: mset_map)
  then show ?thesis
    by (simp only: s map_nth)
next
  assume "sort_values lib df = sort_key month df"
  then show ?thesis by simp
qed

lemma length_sort_values: "length (sort_values lib h) = length h"
  using mset_sort_values [of lib h] by (rule mset_eq_length)

lemma sum_list_map_sort_values:
  "sum_list (map f (sort_values lib h)) = (sum_list (map f h) :: real)"
proof -
  have "mset (map f (sort_values lib h)) = mset (map f h)"
    by (simp only: mset_map mset_sort_values)
  then show ?thesis
    by (metis sum_mset_sum_list)
qed

lemma sorted_sort_values: "sorted (map month (sort_values lib df))"
  using sort_values_cases [of df lib]
proof (elim disjE exE conjE)
  fix ix
  assume ix: "sort ix = [0..<length df]"
    and srt: "sorted (map (\<lambda>i. map month df ! i) ix)"
    and s: "sort_values lib df = map (\<lambda>i. df ! i) ix"
  have "set ix = set (sort ix)"
    by simp
  then have "\<forall>i \<in> set ix. i < length df"
    by (simp only: ix) simp
  then have eq: "map month (map (\<lambda>i. df ! i) ix) = map (\<lambda>i. map month df ! i) ix"
    by simp
  show ?thesis
    by (simp only: s eq srt)
next
  assume "sort_values lib df = sort_key month df"
  then show ?thesis by simp
qed

text \<open>With pairwise distinct months the indexer is determined: the order is the stable one.\<close>

lemma sort_values_distinct:
  assumes "distinct (map month df)"
  shows "sort_values lib df = sort_key month df"
proof -
  from assms have "inj_on month (set df)"
    by (simp add: distinct_map)
  with mset_sort_values [of lib df, symmetric]
  have "sort_key month df = sort_values lib df"
    using sorted_sort_values [of lib df] by (rule sort_key_inj_key_eq)
  then show ?thesis ..
qed

lemma sum_column_sort_values:
  "sum_list (column lib (sort_values lib h) c) = sum_list (column lib h c)"
  by (simp add: column_def sum_list_map_sort_values)

lemma length_column: "length (column lib h c) = length h"
  by (simp add: column_def)

lemma mean_column_sort_values:
  "mean (column lib (sort_values lib h) c) = mean (column lib h c)"
  by (simp add: mean_def sum_column_sort_values length_column length_sort_values)

lemma std_column_sort_values:
  "std (column lib (sort_values lib h) c) = std (column lib h c)"
proof -
  have "sum_list (map (\<lambda>x. (x - \<mu>)\<^sup>2) (column lib (sort_values lib h) c)) =
        sum_list (map (\<lambda>x. (x - \<mu>)\<^sup>2) (column lib h c))" for \<mu>
    by (simp add: column_def comp_def sum_list_map_sort_values)
  then show ?thesis
    by (simp add: std_def mean_column_sort_values length_column length_sort_values)
qed

lemma cv_column_sort_values:
  "cv (column lib (sort_values lib h) c) = cv (column lib h c)"
  by (simp add: cv_def std_column_sort_values mean_column_sort_values)

lemma category_variances_sort_values:
  "category_variances lib (sort_values lib h) = map (\<lambda>c. cv (column lib h c)) (active_categories lib h)"
  by (simp add: category_variances_def active_categories_def sum_column_sort_values
      cv_column_sort_values)

lemma not_in_columns_sum:
  "\<not> in_columns df c \<Longrightarrow> sum_list (column lib df c) = 0"
  by (induction df) (simp_all add: in_columns_def column_def)

lemma user_categories_iff:
  "c \<in> user_categories lib h \<longleftrightarrow> c \<in> set EXPENSE_CATEGORIES \<and> 0 < sum_list (column lib h c)"
proof -
  have "in_columns h c" if "0 < sum_list (column lib h c)"
    using that not_in_columns_sum [of h c lib] by (cases "in_columns h c") simp_all
  then show ?thesis
    by (auto simp: user_categories_def)
qed

lemma map_of_graph:
  "c \<in> set cs \<Longrightarrow> map_of (map (\<lambda>c. (c, f c)) cs) c = Some (f c)"
  by (induction cs) auto


subsection \<open>The sample inputs\<close>

lemma str_nat_2024: "str_nat 2024 = ''2024''"
  by code_simp

lemma fmt_02d_1: "fmt_02d (Suc 0) = ''01''"
  by code_simp

lemma year_month_2024_12: "year_month ''2024-12'' = Some (2024, 12)"
  by code_simp

lemma year_month_2024_06: "year_month ''2024-06'' = Some (2024, 6)"
  by code_simp

lemma sort_values_history_dec:
  "sort_values sample_lib history_dec =
     [groceries ''2024-10'' 300, groceries ''2024-11'' 310, groceries ''2024-12'' 320]"
proof -
  have "distinct (map month history_dec)"
    by (simp add: history_dec_def groceries_def)
  then have "sort_values sample_lib history_dec = sort_key month history_dec"
    by (rule sort_values_distinct)
  then show ?thesis
    by (simp add: history_dec_def groceries_def)
qed

lemma last_month_history_dec:
  "to_datetime sample_lib (month (last (sort_values sample_lib history_dec))) = Some (2024, 12)"
  unfolding sort_values_history_dec
  by (simp add: sample_lib_def groceries_def year_month_2024_12 del: year_month.simps)

lemma length_history_dec: "length history_dec = 3"
  by (simp add: history_dec_def)

lemma sample_model_schema: "set (feature_columns sample_model) \<subseteq> set feature_names"
  by (simp add: sample_model_def)

lemma length_history_2: "length history_2 = 2"
  by (simp add: history_2_def)

subsection \<open>Short histories\<close>

text \<open>
  C1. With a model loaded, a history of fewer than 3 records makes \<open>predict_expenses\<close>
  return (it does not raise) the degenerate result: prediction 0 for each of the eight
  categories, total 0, confidence low, and the message that at least 3 months of
  history are needed.
\<close>

theorem short_history_degenerate:
  assumes "length h < 3"
  shows "\<exists>res preds. predict_expenses lib (Some md) h = Inr res \<and>
           get_predictions res = Some preds \<and>
           map fst preds = EXPENSE_CATEGORIES \<and>
           (\<forall>cat \<in> set EXPENSE_CATEGORIES. map_of preds cat = Some 0) \<and>
           get_num res ''total'' = Some 0 \<and>
           get_str res ''confidence'' = Some ''low'' \<and>
           get_str res ''message'' =
             Some ''Need at least 3 months of history for accurate predictions''"
proof -
  let ?preds = "map (\<lambda>cat. (cat, 0::real)) EXPENSE_CATEGORIES"
  have 1: "predict_expenses lib (Some md) h = Inr insufficient_history"
    using assms by (simp add: predict_expenses_def)
  have 2: "get_predictions insufficient_history = Some ?preds"
    by (simp add: get_predictions_def insufficient_history_def)
  have 3: "map fst ?preds = EXPENSE_CATEGORIES"
    by (simp add: comp_def)
  have 4: "\<forall>cat \<in> set EXPENSE_CATEGORIES. map_of ?preds cat = Some 0"
    by (simp add: map_of_graph)
  have 5: "get_num insufficient_history ''total'' = Some 0"
    by (simp add: get_num_def insufficient_history_def)
  have 6: "get_str insufficient_history ''confidence'' = Some ''low''"
    by (simp add: get_str_def insufficient_history_def)
  have 7: "get_str insufficient_history ''message'' =
      Some ''Need at least 3 months of history for accurate predictions''"
    by (simp add: get_str_def insufficient_history_def)
  show ?thesis
    by (intro exI conjI) (rule 1 2 3 4 5 6 7)+
qed

theorem short_history_degenerate_witness:
  "length history_2 < 3 \<and>
   (\<exists>res preds. predict_expenses sample_lib (Some sample_model) history_2 = Inr res \<and>
      get_predictions res = Some preds \<and>
      map fst preds = EXPENSE_CATEGORIES \<and>
      (\<forall>cat \<in> set EXPENSE_CATEGORIES. map_of preds cat = Some 0) \<and>
      get_num res ''total'' = Some 0 \<and>
      get_str res ''confidence'' = Some ''low'' \<and>
      get_str res ''message'' =
        Some ''Need at least 3 months of history for accurate predictions'')"
proof -
  have short: "length history_2 < 3"
    by (simp add: length_history_2)
  from short short_history_degenerate [OF short, of sample_lib sample_model]
  show ?thesis by (rule conjI)
qed

text \<open>
  Without a loaded model a history of 2 records is not answered: the call raises before
  it looks at the history.
\<close>

theorem short_history_without_model:
  "length history_2 < 3 \<and>
   predict_expenses sample_lib None history_2 = Inl ModelNotLoaded"
  by (simp add: length_history_2 predict_expenses_def)

text \<open>
  C10. The result for fewer than 3 records has exactly the keys \<open>predictions\<close>,
  \<open>total\<close>, \<open>confidence\<close> and \<open>message\<close>; every result for 3 records or more has
  exactly \<open>predictions\<close>, \<open>total\<close>, \<open>confidence\<close>, \<open>history_months\<close> and
  \<open>next_month\<close>, and no \<open>message\<close>.
\<close>

theorem result_keys:
  "(length h < 3 \<longrightarrow>
      (\<exists>res. predict_expenses lib (Some md) h = Inr res \<and>
         map fst res = [''predictions'', ''total'', ''confidence'', ''message''] \<and>
         map_of res ''history_months'' = None \<and> map_of res ''next_month'' = None)) \<and>
   (3 \<le> length h \<longrightarrow>
      (\<forall>res. predict_expenses lib (Some md) h = Inr res \<longrightarrow>
         map fst res =
           [''predictions'', ''total'', ''confidence'', ''history_months'', ''next_month''] \<and>
         map_of res ''history_months'' \<noteq> None \<and> map_of res ''next_month'' \<noteq> None))"
proof (rule conjI)
  show "length h < 3 \<longrightarrow>
      (\<exists>res. predict_expenses lib (Some md) h = Inr res \<and>
         map fst res = [''predictions'', ''total'', ''confidence'', ''message''] \<and>
         map_of res ''history_months'' = None \<and> map_of res ''next_month'' = None)"
  proof (rule impI)
    assume "length h < 3"
    then have 1: "predict_expenses lib (Some md) h = Inr insufficient_history"
      by (simp add: predict_expenses_def)
    have 2: "map fst insufficient_history =
        [''predictions'', ''total'', ''confidence'', ''message'']"
      by (simp add: insufficient_history_def)
    have 3: "map_of insufficient_history ''history_months'' = None"
      by (simp add: insufficient_history_def)
    have 4: "map_of insufficient_history ''next_month'' = None"
      by (simp add: insufficient_history_def)
    show "\<exists>res. predict_expenses lib (Some md) h = Inr res \<and>
        map fst res = [''predictions'', ''total'', ''confidence'', ''message''] \<and>
        map_of res ''history_months'' = None \<and> map_of res ''next_month'' = None"
      by (intro exI conjI) (rule 1 2 3 4)+
  qed
next
  show "3 \<le> length h \<longrightarrow>
      (\<forall>res. predict_expenses lib (Some md) h = Inr res \<longrightarrow>
         map fst res =
           [''predictions'', ''total'', ''confidence'', ''history_months'', ''next_month''] \<and>
         map_of res ''history_months'' \<noteq> None \<and> map_of res ''next_month'' \<noteq> None)"
  proof (intro impI allI)
    fix res
    assume len: "3 \<le> length h" and res: "predict_expenses lib (Some md) h = Inr res"
    from len res obtain fb X where
      "build_features lib h = Inr fb"
      "select_columns (features fb) (feature_columns md) = Some X"
      by (auto simp: predict_expenses_def Let_def split: sum.splits option.splits)
    from predict_expenses_Inr [OF len this] res
    have "res =
        [(''predictions'', VDict (predictions_of md (user_categories lib h) X)),
         (''total'', VNum (round2 (sum_list (map snd
             (predictions_of md (user_categories lib h) X))))),
         (''confidence'', VStr (confidence_of (length h)
             (category_variances lib (sorted_df fb)))),
         (''history_months'', VNum (real (length h))),
         (''next_month'', VStr (str_nat (last_year fb) @ ''-'' @
             fmt_02d (next_month_num fb)))]"
      by simp
    then show "map fst res =
        [''predictions'', ''total'', ''confidence'', ''history_months'', ''next_month''] \<and>
        map_of res ''history_months'' \<noteq> None \<and> map_of res ''next_month'' \<noteq> None"
      by simp
  qed
qed

theorem result_keys_witness:
  "(\<exists>res. predict_expenses sample_lib (Some sample_model) history_2 = Inr res \<and>
      map fst res = [''predictions'', ''total'', ''confidence'', ''message''] \<and>
      map_of res ''history_months'' = None \<and> map_of res ''next_month'' = None) \<and>
   (\<exists>res. predict_expenses sample_lib (Some sample_model) history_dec = Inr res \<and>
      map fst res =
        [''predictions'', ''total'', ''confidence'', ''history_months'', ''next_month''] \<and>
      map_of res ''history_months'' \<noteq> None \<and> map_of res ''next_month'' \<noteq> None)"
proof (rule conjI)
  have short: "length history_2 < 3"
    by (simp add: length_history_2)
  from result_keys [of history_2 sample_lib sample_model, THEN conjunct1, THEN mp, OF short]
  show "\<exists>res. predict_expenses sample_lib (Some sample_model) history_2 = Inr res \<and>
      map fst res = [''predictions'', ''total'', ''confidence'', ''message''] \<and>
      map_of res ''history_months'' = None \<and> map_of res ''next_month'' = None" .
next
  have len: "3 \<le> length history_dec"
    by (simp add: length_history_dec)
  from forecast_returns [OF len last_month_history_dec sample_model_schema]
  obtain res where res: "predict_expenses sample_lib (Some sample_model) history_dec = Inr res"
    by (elim exE conjE)
  from result_keys [of history_dec sample_lib sample_model, THEN conjunct2, THEN mp, OF len,
      THEN spec, of res, THEN mp, OF res]
  have keys: "map fst res =
        [''predictions'', ''total'', ''confidence'', ''history_months'', ''next_month''] \<and>
      map_of res ''history_months'' \<noteq> None \<and> map_of res ''next_month'' \<noteq> None" .
  show "\<exists>res. predict_expenses sample_lib (Some sample_model) history_dec = Inr res \<and>
      map fst res =
        [''predictions'', ''total'', ''confidence'', ''history_months'', ''next_month''] \<and>
      map_of res ''history_months'' \<noteq> None \<and> map_of res ''next_month'' \<noteq> None"
    by (rule exI [of _ res], rule conjI, rule res, rule keys)
qed


subsection \<open>Usage mask\<close>

lemma get_predictions_result:
  "get_predictions ((''predictions'', VDict d) # rest) = Some d"
  by (simp add: get_predictions_def)

text \<open>
  C2. For a history of at least 3 records and a category of the fixed set, the returned
  prediction is 0 when the coerced historical sum of the category is not greater than 0,
  whatever the model would answer; otherwise it is the model's answer on the feature
  vector, rounded to 2 places and floored at 0.
\<close>

theorem unused_category_forced_to_zero:
  assumes "3 \<le> length h"
    and "to_datetime lib (month (last (sort_values lib h))) = Some (y, m)"
    and "set (feature_columns md) \<subseteq> set feature_names"
    and "cat \<in> set EXPENSE_CATEGORIES"
  shows "\<exists>res preds fb X. predict_expenses lib (Some md) h = Inr res \<and>
           get_predictions res = Some preds \<and>
           build_features lib h = Inr fb \<and>
           select_columns (features fb) (feature_columns md) = Some X \<and>
           map_of preds cat =
             Some (if 0 < sum_list (column lib h cat)
                   then max 0 (round2 (predict_scaled md cat X)) else 0)"
proof -
  from forecast_returns [OF assms(1-3)] obtain fb X where
    fb: "build_features lib h = Inr fb"
    and X: "select_columns (features fb) (feature_columns md) = Some X"
    and res: "predict_expenses lib (Some md) h =
      Inr [(''predictions'', VDict (predictions_of md (user_categories lib h) X)),
           (''total'', VNum (round2 (sum_list (map snd
               (predictions_of md (user_categories lib h) X))))),
           (''confidence'', VStr (confidence_of (length h)
               (category_variances lib (sort_values lib h)))),
           (''history_months'', VNum (real (length h))),
           (''next_month'', VStr (str_nat y @ ''-'' @ fmt_02d (m mod 12 + 1)))]"
    by (elim exE conjE)
  have "map_of (predictions_of md (user_categories lib h) X) cat =
      Some (if 0 < sum_list (column lib h cat)
            then max 0 (round2 (predict_scaled md cat X)) else 0)"
    unfolding predictions_of_def
    using assms(4) by (simp add: map_of_graph user_categories_iff)
  then show ?thesis
    by (intro exI conjI) (rule res get_predictions_result fb X | assumption)+
qed

lemma shopping_unused: "sum_list (column sample_lib history_dec ''Shopping'') = 0"
  by (simp add: column_def history_dec_def groceries_def)

theorem unused_category_forced_to_zero_witness:
  "3 \<le> length history_dec \<and>
   to_datetime sample_lib (month (last (sort_values sample_lib history_dec))) = Some (2024, 12) \<and>
   set (feature_columns sample_model) \<subseteq> set feature_names \<and>
   ''Shopping'' \<in> set EXPENSE_CATEGORIES \<and>
   (\<exists>res preds. predict_expenses sample_lib (Some sample_model) history_dec = Inr res \<and>
      get_predictions res = Some preds \<and> map_of preds ''Shopping'' = Some 0)"
proof -
  have len: "3 \<le> length history_dec"
    by (simp add: length_history_dec)
  have cat: "''Shopping'' \<in> set EXPENSE_CATEGORIES"
    by (simp add: EXPENSE_CATEGORIES_def)
  from unused_category_forced_to_zero [OF len last_month_history_dec sample_model_schema cat]
  obtain res preds fb X where
    1: "predict_expenses sample_lib (Some sample_model) history_dec = Inr res"
    and 2: "get_predictions res = Some preds"
    and 3: "map_of preds ''Shopping'' =
      Some (if 0 < sum_list (column sample_lib history_dec ''Shopping'')
            then max 0 (round2 (predict_scaled sample_model ''Shopping'' X)) else 0)"
    by (elim exE conjE)
  from 3 have 4: "map_of preds ''Shopping'' = Some 0"
    by (simp only: shopping_unused less_irrefl if_False)
  have "\<exists>res preds. predict_expenses sample_lib (Some sample_model) history_dec = Inr res \<and>
      get_predictions res = Some preds \<and> map_of preds ''Shopping'' = Some 0"
    by (intro exI conjI) (rule 1 2 4)+
  with len last_month_history_dec sample_model_schema cat show ?thesis
    by (intro conjI)
qed


subsection \<open>Target month\<close>

text \<open>
  C3. When the last month is December of year Y, the label \<open>next_month\<close> should carry
  year Y+1 with month 01. The code does not do so: for the history 2024-10, 2024-11,
  2024-12 (given in another order) it answers \<open>2024-01\<close>; the month wraps to 01 and
  the year stays 2024.
\<close>

theorem december_label_keeps_year:
  "to_datetime sample_lib (month (last (sort_values sample_lib history_dec))) = Some (2024, 12) \<and>
   (\<exists>res. predict_expenses sample_lib (Some sample_model) history_dec = Inr res \<and>
      get_str res ''next_month'' = Some ''2024-01'')"
proof -
  have len: "3 \<le> length history_dec"
    by (simp add: length_history_dec)
  from forecast_returns [OF len last_month_history_dec sample_model_schema]
  obtain X where res: "predict_expenses sample_lib (Some sample_model) history_dec =
      Inr [(''predictions'',
              VDict (predictions_of sample_model (user_categories sample_lib history_dec) X)),
           (''total'', VNum (round2 (sum_list (map snd
               (predictions_of sample_model (user_categories sample_lib history_dec) X))))),
           (''confidence'', VStr (confidence_of (length history_dec)
               (category_variances sample_lib (sort_values sample_lib history_dec)))),
           (''history_months'', VNum (real (length history_dec))),
           (''next_month'', VStr (str_nat 2024 @ ''-'' @ fmt_02d (12 mod 12 + 1)))]"
    by (elim exE conjE)
  have label: "str_nat 2024 @ ''-'' @ fmt_02d (12 mod 12 + 1) = ''2024-01''"
    by (simp add: str_nat_2024 fmt_02d_1)
  have "get_str [(''predictions'',
              VDict (predictions_of sample_model (user_categories sample_lib history_dec) X)),
           (''total'', VNum (round2 (sum_list (map snd
               (predictions_of sample_model (user_categories sample_lib history_dec) X))))),
           (''confidence'', VStr (confidence_of (length history_dec)
               (category_variances sample_lib (sort_values sample_lib history_dec)))),
           (''history_months'', VNum (real (length history_dec))),
           (''next_month'', VStr (str_nat 2024 @ ''-'' @ fmt_02d (12 mod 12 + 1)))]
         ''next_month'' = Some ''2024-01''"
    unfolding label by (simp add: get_str_def)
  with res have "\<exists>res. predict_expenses sample_lib (Some sample_model) history_dec = Inr res \<and>
      get_str res ''next_month'' = Some ''2024-01''"
    by (intro exI conjI)
  with last_month_history_dec show ?thesis
    by (rule conjI)
qed

subsection \<open>Feature building\<close>

text \<open>
  C6. For a history of at least 3 records whose last record after sorting is dated in
  month m, the feature \<open>month_num\<close> is (m mod 12) + 1; for m = 12 it is 1.
\<close>

theorem month_num_wraps:
  assumes "3 \<le> length h"
    and "to_datetime lib (month (last (sort_values lib h))) = Some (y, m)"
  shows "\<exists>fb. build_features lib h = Inr fb \<and>
           map_of (features fb) ''month_num'' = Some (real (m mod 12 + 1)) \<and>
           (m = 12 \<longrightarrow> map_of (features fb) ''month_num'' = Some 1)"
proof -
  from build_features_Inr [OF assms(2)] obtain fb where
    fb: "build_features lib h = Inr fb"
    and mn: "map_of (features fb) ''month_num'' = Some (real (m mod 12 + 1))"
    by (elim exE conjE)
  from mn have "m = 12 \<longrightarrow> map_of (features fb) ''month_num'' = Some 1"
    by simp
  with fb mn show ?thesis
    by (intro exI conjI)
qed

theorem month_num_wraps_witness:
  "3 \<le> length history_dec \<and>
   to_datetime sample_lib (month (last (sort_values sample_lib history_dec))) = Some (2024, 12) \<and>
   (\<exists>fb. build_features sample_lib history_dec = Inr fb \<and>
      map_of (features fb) ''month_num'' = Some 1)"
proof -
  have len: "3 \<le> length history_dec"
    by (simp add: length_history_dec)
  from month_num_wraps [OF len last_month_history_dec]
  obtain fb where fb: "build_features sample_lib history_dec = Inr fb"
    and "(12::nat) = 12 \<longrightarrow> map_of (features fb) ''month_num'' = Some 1"
    by (elim exE conjE)
  then have "map_of (features fb) ''month_num'' = Some 1"
    by simp
  with fb have "\<exists>fb. build_features sample_lib history_dec = Inr fb \<and>
      map_of (features fb) ''month_num'' = Some 1"
    by (intro exI conjI)
  with len last_month_history_dec show ?thesis
    by (intro conjI)
qed

text \<open>
  C8. For a history of at least 3 records with pairwise distinct months, sorting the
  sorted history again changes nothing, and the features built from the sorted history
  are those built from the history itself.
\<close>

theorem feature_building_idempotent:
  assumes "3 \<le> length h" and "distinct (map month h)"
  shows "sort_values lib (sort_values lib h) = sort_values lib h \<and>
         build_features lib (sort_values lib h) = build_features lib h"
proof -
  have s: "sort_values lib h = sort_key month h"
    using assms(2) by (rule sort_values_distinct)
  have m: "mset (map month (sort_key month h)) = mset (map month h)"
    by simp
  have "distinct (map month (sort_key month h))"
    using mset_eq_imp_distinct_iff [OF m] assms(2) by (rule iffD2)
  then have "sort_values lib (sort_key month h) = sort_key month (sort_key month h)"
    by (rule sort_values_distinct)
  also have "\<dots> = sort_key month h"
    by (rule sort_key_id_if_sorted) (rule sorted_sort_key)
  finally have idem: "sort_values lib (sort_values lib h) = sort_values lib h"
    by (simp only: s)
  then show ?thesis
    by (simp add: build_features_def)
qed

theorem feature_building_idempotent_witness:
  "3 \<le> length history_dec \<and> distinct (map month history_dec) \<and>
   sort_values sample_lib history_dec \<noteq> history_dec \<and>
   sort_values sample_lib (sort_values sample_lib history_dec) =
     sort_values sample_lib history_dec \<and>
   build_features sample_lib (sort_values sample_lib history_dec) =
     build_features sample_lib history_dec"
proof -
  have len: "3 \<le> length history_dec"
    by (simp add: length_history_dec)
  have dist: "distinct (map month history_dec)"
    by (simp add: history_dec_def groceries_def)
  have "sort_values sample_lib history_dec \<noteq> history_dec"
    unfolding sort_values_history_dec by (simp add: history_dec_def groceries_def)
  with len dist feature_building_idempotent [OF len dist, of sample_lib] show ?thesis
    by (intro conjI) (erule conjunct1 conjunct2 | assumption)+
qed

text \<open>
  With a month that comes twice the sorted order is not kept: the eighteen records of
  \<open>history_18\<close> are in ascending order of their months, and numpy's quicksort exchanges
  the two records of August 2023, each time it is run.
\<close>

lemma length_history_18: "length history_18 = 18"
  by (simp add: history_18_def)

lemma months_history_18: "map month history_18 = months_18"
  by (simp add: history_18_def months_18_def groceries_def)

lemma months_history_18_swapped: "map month history_18_swapped = months_18"
  by (simp add: history_18_swapped_def months_18_def groceries_def)

lemma argsort_months_18:
  "argsort sample_lib months_18 =
     [0, 1, 2, 3, 4, 5, 6, 8, 7, 9, 10, 11, 12, 13, 14, 15, 16, 17]"
  by code_simp

lemma indexer_months_18:
  "sort [0, 1, 2, 3, 4, 5, 6, 8, 7, 9, 10, 11, 12, 13, 14, 15, 16, 17] = [0..<(18::nat)]"
  "sorted (map (\<lambda>i. months_18 ! i)
     [0, 1, 2, 3, 4, 5, 6, 8, 7, 9, 10, 11, 12, 13, 14, 15, 16, 17])"
  by code_simp+

lemma sort_values_history_18: "sort_values sample_lib history_18 = history_18_swapped"
proof -
  have "map (\<lambda>i. history_18 ! i)
      [0, 1, 2, 3, 4, 5, 6, 8, 7, 9, 10, 11, 12, 13, 14, 15, 16, 17] = history_18_swapped"
    by (simp add: history_18_def history_18_swapped_def)
  then show ?thesis
    by (simp only: sort_values_def Let_def months_history_18 argsort_months_18
        length_history_18 indexer_months_18 simp_thms if_True)
qed

lemma sort_values_history_18_swapped:
  "sort_values sample_lib history_18_swapped = history_18"
proof -
  have len: "length history_18_swapped = 18"
    by (simp add: history_18_swapped_def)
  have "map (\<lambda>i. history_18_swapped ! i)
      [0, 1, 2, 3, 4, 5, 6, 8, 7, 9, 10, 11, 12, 13, 14, 15, 16, 17] = history_18"
    by (simp add: history_18_def history_18_swapped_def)
  then show ?thesis
    by (simp only: sort_values_def Let_def months_history_18_swapped argsort_months_18
        len indexer_months_18 simp_thms if_True)
qed

lemma groceries_eq_iff: "groceries m x = groceries m' x' \<longleftrightarrow> m = m' \<and> x = x'"
proof
  assume eq: "groceries m x = groceries m' x'"
  from arg_cong [OF eq, of month] have "m = m'"
    by (simp add: groceries_def)
  moreover from arg_cong [OF eq, of "\<lambda>r. amounts r ''Groceries''"] have "x = x'"
    by (simp add: groceries_def)
  ultimately show "m = m' \<and> x = x'" ..
qed simp

theorem sorted_history_reordered:
  "3 \<le> length history_18 \<and> sorted (map month history_18) \<and>
   sort_values sample_lib history_18 \<noteq> history_18 \<and>
   sort_values sample_lib (sort_values sample_lib history_18)
     \<noteq> sort_values sample_lib history_18"
proof -
  have len: "3 \<le> length history_18"
    by (simp add: length_history_18)
  have srt: "sorted (map month history_18)"
    unfolding months_history_18 by code_simp
  have ne: "history_18_swapped \<noteq> history_18"
    by (simp add: history_18_def history_18_swapped_def groceries_eq_iff)
  then have ne': "history_18 \<noteq> history_18_swapped"
    by (rule not_sym)
  from len srt ne ne' show ?thesis
    by (simp only: sort_values_history_18 sort_values_history_18_swapped simp_thms)
qed

subsection \<open>Total\<close>

lemma round_half_even_of_int: "round_half_even (of_int k) = k"
  by (simp add: round_half_even_def)

lemma round2_cents: "round2 (of_int k / 100) = of_int k / 100"
  by (simp add: round2_def round_half_even_of_int)

lemma round2_round2: "round2 (round2 x) = round2 x"
  unfolding round2_def [of x] by (rule round2_cents)

lemma round2_max: "round2 (max 0 (round2 x)) = max 0 (round2 x)"
proof (cases "0 \<le> round2 x")
  case True
  then show ?thesis by (simp add: max_def round2_round2)
next
  case False
  have "round2 0 = 0" using round2_cents [of 0] by simp
  with False show ?thesis by (simp add: max_def)
qed

lemma predictions_rounded:
  "p \<in> set (predictions_of md U X) \<Longrightarrow> round2 (snd p) = snd p"
proof -
  have z: "round2 0 = 0" using round2_cents [of 0] by simp
  assume "p \<in> set (predictions_of md U X)"
  then show ?thesis
    unfolding predictions_of_def by (auto simp: round2_max z)
qed

lemma sum_list_rounded:
  "\<forall>x \<in> set xs. round2 x = x \<Longrightarrow> round2 (sum_list xs) = sum_list xs"
proof -
  assume r: "\<forall>x \<in> set xs. round2 x = x"
  have "\<forall>x \<in> set xs. \<exists>k::int. x = of_int k / 100"
  proof
    fix x assume "x \<in> set xs"
    with r have "x = round2 x" by simp
    then show "\<exists>k::int. x = of_int k / 100"
      unfolding round2_def by blast
  qed
  then have "\<exists>k::int. sum_list xs = of_int k / 100"
  proof (induction xs)
    case Nil
    have "(0::real) = of_int 0 / 100" by simp
    then show ?case by (simp only: sum_list.Nil) (rule exI)
  next
    case (Cons a xs)
    then obtain k l :: int where "a = of_int k / 100" "sum_list xs = of_int l / 100"
      by auto
    then have "sum_list (a # xs) = of_int (k + l) / 100"
      by (simp add: add_divide_distrib)
    then show ?case by (rule exI)
  qed
  then obtain k :: int where "sum_list xs = of_int k / 100" ..
  then show ?thesis by (simp only: round2_cents)
qed

lemma get_num_total:
  "get_num [p, (''total'', VNum t), c, n, l] ''total'' =
     (if fst p = ''total'' then (case snd p of VNum x \<Rightarrow> Some x | _ \<Rightarrow> None) else Some t)"
  by (cases p) (simp add: get_num_def)

text \<open>
  C5. For a history of at least 3 records, every returned prediction is already rounded
  to 2 places, and the returned total is the sum of these predictions: the value
  \<open>round(sum(...), 2)\<close> the code computes is that sum.
\<close>

theorem total_sums_rounded_predictions:
  assumes "3 \<le> length h"
    and "to_datetime lib (month (last (sort_values lib h))) = Some (y, m)"
    and "set (feature_columns md) \<subseteq> set feature_names"
  shows "\<exists>res preds total. predict_expenses lib (Some md) h = Inr res \<and>
           get_predictions res = Some preds \<and>
           get_num res ''total'' = Some total \<and>
           (\<forall>p \<in> set preds. round2 (snd p) = snd p) \<and>
           total = round2 (sum_list (map snd preds)) \<and>
           total = sum_list (map snd preds)"
proof -
  from forecast_returns [OF assms] obtain X where
    res: "predict_expenses lib (Some md) h =
      Inr [(''predictions'', VDict (predictions_of md (user_categories lib h) X)),
           (''total'', VNum (round2 (sum_list (map snd
               (predictions_of md (user_categories lib h) X))))),
           (''confidence'', VStr (confidence_of (length h)
               (category_variances lib (sort_values lib h)))),
           (''history_months'', VNum (real (length h))),
           (''next_month'', VStr (str_nat y @ ''-'' @ fmt_02d (m mod 12 + 1)))]"
    by (elim exE conjE)
  let ?preds = "predictions_of md (user_categories lib h) X"
  have total: "get_num [(''predictions'', VDict ?preds),
           (''total'', VNum (round2 (sum_list (map snd ?preds)))),
           (''confidence'', VStr (confidence_of (length h)
               (category_variances lib (sort_values lib h)))),
           (''history_months'', VNum (real (length h))),
           (''next_month'', VStr (str_nat y @ ''-'' @ fmt_02d (m mod 12 + 1)))] ''total''
      = Some (round2 (sum_list (map snd ?preds)))"
    by (simp add: get_num_total)
  have rounded: "\<forall>p \<in> set ?preds. round2 (snd p) = snd p"
    by (rule ballI) (rule predictions_rounded)
  then have "\<forall>x \<in> set (map snd ?preds). round2 x = x"
    by simp
  then have sum: "round2 (sum_list (map snd ?preds)) = sum_list (map snd ?preds)"
    by (rule sum_list_rounded)
  show ?thesis
    by (intro exI conjI) (rule res get_predictions_result total rounded refl sum)+
qed

theorem total_sums_rounded_predictions_witness:
  "3 \<le> length history_dec \<and>
   to_datetime sample_lib (month (last (sort_values sample_lib history_dec))) = Some (2024, 12) \<and>
   set (feature_columns sample_model) \<subseteq> set feature_names \<and>
   (\<exists>res preds total. predict_expenses sample_lib (Some sample_model) history_dec = Inr res \<and>
      get_predictions res = Some preds \<and>
      get_num res ''total'' = Some total \<and>
      (\<forall>p \<in> set preds. round2 (snd p) = snd p) \<and>
      total = round2 (sum_list (map snd preds)) \<and>
      total = sum_list (map snd preds))"
proof -
  have len: "3 \<le> length history_dec"
    by (simp add: length_history_dec)
  from len last_month_history_dec sample_model_schema
    total_sums_rounded_predictions [OF len last_month_history_dec sample_model_schema]
  show ?thesis
    by (intro conjI)
qed


subsection \<open>Confidence\<close>

lemma get_str_confidence:
  "get_str [(''predictions'', p), (''total'', t), (''confidence'', VStr c), n, l] ''confidence''
     = Some c"
  by (simp add: get_str_def)

lemma forecast_confidence:
  assumes "3 \<le> length h"
    and "to_datetime lib (month (last (sort_values lib h))) = Some (y, m)"
    and "set (feature_columns md) \<subseteq> set feature_names"
  shows "\<exists>res. predict_expenses lib (Some md) h = Inr res \<and>
           get_str res ''confidence'' =
             Some (confidence_of (length h)
                     (map (\<lambda>cat. cv (column lib h cat)) (active_categories lib h)))"
proof -
  from forecast_returns [OF assms] obtain X where
    res: "predict_expenses lib (Some md) h =
      Inr [(''predictions'', VDict (predictions_of md (user_categories lib h) X)),
           (''total'', VNum (round2 (sum_list (map snd
               (predictions_of md (user_categories lib h) X))))),
           (''confidence'', VStr (confidence_of (length h)
               (category_variances lib (sort_values lib h)))),
           (''history_months'', VNum (real (length h))),
           (''next_month'', VStr (str_nat y @ ''-'' @ fmt_02d (m mod 12 + 1)))]"
    by (elim exE conjE)
  show ?thesis
    unfolding category_variances_sort_values [symmetric]
    by (intro exI conjI) (rule res get_str_confidence)+
qed

text \<open>
  C4. A history of 3 to 5 records gets confidence medium. For 6 records or more, with
  at least one category of positive coerced sum, the average over these categories of
  standard deviation / (mean + 1e-6) decides: below 0.3 high, above 0.6 low, otherwise
  medium.
\<close>

theorem confidence_rule:
  assumes "3 \<le> length h"
    and "to_datetime lib (month (last (sort_values lib h))) = Some (y, m)"
    and "set (feature_columns md) \<subseteq> set feature_names"
  shows "\<exists>res conf. predict_expenses lib (Some md) h = Inr res \<and>
           get_str res ''confidence'' = Some conf \<and>
           (length h \<le> 5 \<longrightarrow> conf = ''medium'') \<and>
           (6 \<le> length h \<and> active_categories lib h \<noteq> [] \<longrightarrow>
              conf =
                (let avg_cv = mean (map (\<lambda>cat. std (column lib h cat) /
                                              (mean (column lib h cat) + 1 / 1000000))
                                     (active_categories lib h))
                 in if avg_cv < 3 / 10 then ''high''
                    else if avg_cv > 6 / 10 then ''low'' else ''medium''))"
proof -
  let ?cvs = "map (\<lambda>cat. cv (column lib h cat)) (active_categories lib h)"
  from forecast_confidence [OF assms] obtain res where
    res: "predict_expenses lib (Some md) h = Inr res"
    and conf: "get_str res ''confidence'' = Some (confidence_of (length h) ?cvs)"
    by (elim exE conjE)
  have short: "length h \<le> 5 \<longrightarrow> confidence_of (length h) ?cvs = ''medium''"
    by (simp add: confidence_of_def)
  have long: "6 \<le> length h \<and> active_categories lib h \<noteq> [] \<longrightarrow>
      confidence_of (length h) ?cvs =
        (let avg_cv = mean (map (\<lambda>cat. std (column lib h cat) /
                                      (mean (column lib h cat) + 1 / 1000000))
                             (active_categories lib h))
         in if avg_cv < 3 / 10 then ''high''
            else if avg_cv > 6 / 10 then ''low'' else ''medium'')"
    by (simp add: confidence_of_def cv_def)
  show ?thesis
    by (intro exI conjI) (rule res conf short long)+
qed

lemma length_history_flat: "length history_flat = 6"
  by (simp add: history_flat_def)

lemma sort_values_history_flat: "sort_values sample_lib history_flat = history_flat"
proof -
  have "distinct (map month history_flat)"
    by (simp add: history_flat_def groceries_def)
  then have "sort_values sample_lib history_flat = sort_key month history_flat"
    by (rule sort_values_distinct)
  then show ?thesis
    by (simp add: history_flat_def groceries_def)
qed

lemma last_month_history_flat:
  "to_datetime sample_lib (month (last (sort_values sample_lib history_flat))) = Some (2024, 6)"
  unfolding sort_values_history_flat
  by (simp add: history_flat_def sample_lib_def groceries_def year_month_2024_06
      del: year_month.simps)

lemma active_history_flat: "active_categories sample_lib history_flat = [''Groceries'']"
  by (simp add: active_categories_def column_def history_flat_def groceries_def
      EXPENSE_CATEGORIES_def)

lemma column_history_flat:
  "column sample_lib history_flat ''Groceries'' = [300, 300, 300, 300, 300, 300]"
  by (simp add: column_def history_flat_def groceries_def)

lemma std_history_flat: "std (column sample_lib history_flat ''Groceries'') = 0"
  unfolding column_history_flat by (simp add: std_def mean_def)

theorem confidence_rule_witness:
  "3 \<le> length history_dec \<and> length history_dec \<le> 5 \<and>
   to_datetime sample_lib (month (last (sort_values sample_lib history_dec))) = Some (2024, 12) \<and>
   set (feature_columns sample_model) \<subseteq> set feature_names \<and>
   (\<exists>res. predict_expenses sample_lib (Some sample_model) history_dec = Inr res \<and>
      get_str res ''confidence'' = Some ''medium'') \<and>
   6 \<le> length history_flat \<and> active_categories sample_lib history_flat \<noteq> [] \<and>
   to_datetime sample_lib (month (last (sort_values sample_lib history_flat))) = Some (2024, 6) \<and>
   (\<exists>res. predict_expenses sample_lib (Some sample_model) history_flat = Inr res \<and>
      get_str res ''confidence'' = Some ''high'')"
proof -
  have len3: "3 \<le> length history_dec" and len5: "length history_dec \<le> 5"
    by (simp_all add: length_history_dec)
  from confidence_rule [OF len3 last_month_history_dec sample_model_schema]
  obtain r1 c1 where r1: "predict_expenses sample_lib (Some sample_model) history_dec = Inr r1"
    and c1: "get_str r1 ''confidence'' = Some c1"
    and "length history_dec \<le> 5 \<longrightarrow> c1 = ''medium''"
    by (elim exE conjE)
  with len5 have "c1 = ''medium''"
    by (elim impE)
  with r1 c1 have a: "\<exists>res. predict_expenses sample_lib (Some sample_model) history_dec = Inr res \<and>
      get_str res ''confidence'' = Some ''medium''"
    by (intro exI [of _ r1] conjI) simp_all
  have len63: "3 \<le> length history_flat" and len6: "6 \<le> length history_flat"
    by (simp_all add: length_history_flat)
  have act: "active_categories sample_lib history_flat \<noteq> []"
    by (simp add: active_history_flat)
  from confidence_rule [OF len63 last_month_history_flat sample_model_schema]
  obtain r2 c2 where r2: "predict_expenses sample_lib (Some sample_model) history_flat = Inr r2"
    and c2: "get_str r2 ''confidence'' = Some c2"
    and rule: "6 \<le> length history_flat \<and> active_categories sample_lib history_flat \<noteq> [] \<longrightarrow>
      c2 =
        (let avg_cv = mean (map (\<lambda>cat. std (column sample_lib history_flat cat) /
                                      (mean (column sample_lib history_flat cat) + 1 / 1000000))
                             (active_categories sample_lib history_flat))
         in if avg_cv < 3 / 10 then ''high''
            else if avg_cv > 6 / 10 then ''low'' else ''medium'')"
    by (elim exE conjE)
  from rule len6 act have "c2 =
        (let avg_cv = mean (map (\<lambda>cat. std (column sample_lib history_flat cat) /
                                      (mean (column sample_lib history_flat cat) + 1 / 1000000))
                             (active_categories sample_lib history_flat))
         in if avg_cv < 3 / 10 then ''high''
            else if avg_cv > 6 / 10 then ''low'' else ''medium'')"
    by (elim impE) (rule conjI)
  then have "c2 = ''high''"
    by (simp add: active_history_flat std_history_flat mean_def)
  with r2 c2 have b: "\<exists>res. predict_expenses sample_lib (Some sample_model) history_flat = Inr res \<and>
      get_str res ''confidence'' = Some ''high''"
    by (intro exI [of _ r2] conjI) simp_all
  from len3 len5 last_month_history_dec sample_model_schema a len6 act
    last_month_history_flat b
  show ?thesis
    by (intro conjI)
qed


text \<open>
  C9. For a history of 6 records or more in which no category has a positive coerced
  sum, the confidence is medium: no average is formed and no threshold applied.
\<close>

theorem no_active_category_medium:
  assumes "6 \<le> length h"
    and "to_datetime lib (month (last (sort_values lib h))) = Some (y, m)"
    and "set (feature_columns md) \<subseteq> set feature_names"
    and "\<forall>cat \<in> set EXPENSE_CATEGORIES. \<not> 0 < sum_list (column lib h cat)"
  shows "\<exists>res. predict_expenses lib (Some md) h = Inr res \<and>
           get_str res ''confidence'' = Some ''medium''"
proof -
  from assms(1) have len: "3 \<le> length h"
    by simp
  from assms(4) have "active_categories lib h = []"
    by (simp add: active_categories_def filter_empty_conv)
  then have "confidence_of (length h)
      (map (\<lambda>cat. cv (column lib h cat)) (active_categories lib h)) = ''medium''"
    by (simp add: confidence_of_def)
  with forecast_confidence [OF len assms(2,3)] show ?thesis
    by simp
qed

lemma length_history_empty: "length history_empty = 6"
  by (simp add: history_empty_def)

lemma sort_values_history_empty: "sort_values sample_lib history_empty = history_empty"
proof -
  have "distinct (map month history_empty)"
    by (simp add: history_empty_def nothing_def)
  then have "sort_values sample_lib history_empty = sort_key month history_empty"
    by (rule sort_values_distinct)
  then show ?thesis
    by (simp add: history_empty_def nothing_def)
qed

lemma last_month_history_empty:
  "to_datetime sample_lib (month (last (sort_values sample_lib history_empty))) = Some (2024, 6)"
  unfolding sort_values_history_empty
  by (simp add: history_empty_def sample_lib_def nothing_def year_month_2024_06
      del: year_month.simps)

lemma column_history_empty: "column sample_lib history_empty cat = [0, 0, 0, 0, 0, 0]"
  by (simp add: column_def history_empty_def nothing_def)

theorem no_active_category_medium_witness:
  "6 \<le> length history_empty \<and>
   to_datetime sample_lib (month (last (sort_values sample_lib history_empty))) = Some (2024, 6) \<and>
   set (feature_columns sample_model) \<subseteq> set feature_names \<and>
   list_all (\<lambda>cat. \<not> 0 < sum_list (column sample_lib history_empty cat))
     EXPENSE_CATEGORIES \<and>
   (\<exists>res. predict_expenses sample_lib (Some sample_model) history_empty = Inr res \<and>
      get_str res ''confidence'' = Some ''medium'')"
proof -
  have len: "6 \<le> length history_empty"
    by (simp add: length_history_empty)
  have none: "\<forall>cat \<in> set EXPENSE_CATEGORIES.
      \<not> 0 < sum_list (column sample_lib history_empty cat)"
    by (simp add: column_history_empty)
  from none have none': "list_all (\<lambda>cat. \<not> 0 < sum_list (column sample_lib history_empty cat))
      EXPENSE_CATEGORIES"
    by (simp only: list_all_iff)
  from len last_month_history_empty sample_model_schema none'
    no_active_category_medium [OF len last_month_history_empty sample_model_schema none]
  show ?thesis
    by (intro conjI)
qed

lemma tier_values: "tier ''high'' = 2" "tier ''medium'' = 1" "tier ''low'' = 0"
  by (simp_all add: tier_def)

lemma confidence_of_mono:
  assumes "sum_list xs \<le> sum_list ys" and "length xs = length ys"
  shows "tier (confidence_of n ys) \<le> tier (confidence_of n xs)"
proof (cases "6 \<le> n \<and> xs \<noteq> []")
  case True
  with assms(2) have ys: "ys \<noteq> []" by auto
  from True have "0 < real (length xs)" by simp
  with assms have "mean xs \<le> mean ys"
    by (simp add: mean_def divide_right_mono)
  with True ys show ?thesis
    by (simp add: confidence_of_def Let_def tier_values)
next
  case False
  with assms(2) have "confidence_of n xs = ''medium''" "confidence_of n ys = ''medium''"
    by (auto simp: confidence_of_def)
  then show ?thesis by simp
qed

text \<open>
  C7. Two histories of the same length (at least 3) with the same categories of positive
  coerced sum: if each such category has a coefficient of variation in the first history
  that is at most the one in the second, the confidence of the first is not lower
  (low < medium < high) than that of the second.
\<close>

theorem confidence_monotone:
  assumes "3 \<le> length h1" and "length h2 = length h1"
    and "to_datetime lib (month (last (sort_values lib h1))) = Some (y1, m1)"
    and "to_datetime lib (month (last (sort_values lib h2))) = Some (y2, m2)"
    and "set (feature_columns md) \<subseteq> set feature_names"
    and "active_categories lib h1 = active_categories lib h2"
    and "\<forall>cat \<in> set (active_categories lib h1).
           cv (column lib h1 cat) \<le> cv (column lib h2 cat)"
  shows "\<exists>r1 r2 c1 c2. predict_expenses lib (Some md) h1 = Inr r1 \<and>
           predict_expenses lib (Some md) h2 = Inr r2 \<and>
           get_str r1 ''confidence'' = Some c1 \<and>
           get_str r2 ''confidence'' = Some c2 \<and>
           tier c2 \<le> tier c1"
proof -
  let ?A = "active_categories lib h1"
  let ?xs = "map (\<lambda>cat. cv (column lib h1 cat)) ?A"
  let ?ys = "map (\<lambda>cat. cv (column lib h2 cat)) ?A"
  from assms(1,2) have len2: "3 \<le> length h2"
    by simp
  from forecast_confidence [OF assms(1,3,5)] obtain r1 where
    r1: "predict_expenses lib (Some md) h1 = Inr r1"
    and c1: "get_str r1 ''confidence'' = Some (confidence_of (length h1) ?xs)"
    by (elim exE conjE)
  from forecast_confidence [OF len2 assms(4,5)] obtain r2 where
    r2: "predict_expenses lib (Some md) h2 = Inr r2"
    and "get_str r2 ''confidence'' = Some (confidence_of (length h2)
          (map (\<lambda>cat. cv (column lib h2 cat)) (active_categories lib h2)))"
    by (elim exE conjE)
  then have c2: "get_str r2 ''confidence'' = Some (confidence_of (length h1) ?ys)"
    by (simp only: assms(2) assms(6) [symmetric])
  have "sum_list ?xs \<le> sum_list ?ys"
    using assms(7) by (intro sum_list_mono) simp
  then have "tier (confidence_of (length h1) ?ys) \<le> tier (confidence_of (length h1) ?xs)"
    by (rule confidence_of_mono) simp
  with r1 r2 c1 c2 show ?thesis
    by (intro exI conjI)
qed

lemma length_history_varied: "length history_varied = 6"
  by (simp add: history_varied_def)

lemma sort_values_history_varied: "sort_values sample_lib history_varied = history_varied"
proof -
  have "distinct (map month history_varied)"
    by (simp add: history_varied_def groceries_def)
  then have "sort_values sample_lib history_varied = sort_key month history_varied"
    by (rule sort_values_distinct)
  then show ?thesis
    by (simp add: history_varied_def groceries_def)
qed

lemma last_month_history_varied:
  "to_datetime sample_lib (month (last (sort_values sample_lib history_varied))) = Some (2024, 6)"
  unfolding sort_values_history_varied
  by (simp add: history_varied_def sample_lib_def groceries_def year_month_2024_06
      del: year_month.simps)

lemma active_history_varied: "active_categories sample_lib history_varied = [''Groceries'']"
  by (simp add: active_categories_def column_def history_varied_def groceries_def
      EXPENSE_CATEGORIES_def)

lemma column_history_varied:
  "column sample_lib history_varied ''Groceries'' = [100, 500, 100, 500, 100, 500]"
  by (simp add: column_def history_varied_def groceries_def)

lemma cv_history_flat: "cv (column sample_lib history_flat ''Groceries'') = 0"
  by (simp add: cv_def std_history_flat)

lemma cv_history_varied: "0 \<le> cv (column sample_lib history_varied ''Groceries'')"
  unfolding column_history_varied by (simp add: cv_def std_def mean_def)

theorem confidence_monotone_witness:
  "3 \<le> length history_flat \<and> length history_varied = length history_flat \<and>
   to_datetime sample_lib (month (last (sort_values sample_lib history_flat))) = Some (2024, 6) \<and>
   to_datetime sample_lib (month (last (sort_values sample_lib history_varied))) = Some (2024, 6) \<and>
   set (feature_columns sample_model) \<subseteq> set feature_names \<and>
   active_categories sample_lib history_flat = active_categories sample_lib history_varied \<and>
   active_categories sample_lib history_flat = [''Groceries''] \<and>
   cv (column sample_lib history_flat ''Groceries'')
     \<le> cv (column sample_lib history_varied ''Groceries'') \<and>
   (\<exists>r1 r2 c1 c2. predict_expenses sample_lib (Some sample_model) history_flat = Inr r1 \<and>
      predict_expenses sample_lib (Some sample_model) history_varied = Inr r2 \<and>
      get_str r1 ''confidence'' = Some c1 \<and>
      get_str r2 ''confidence'' = Some c2 \<and>
      tier c2 \<le> tier c1)"
proof -
  have len: "3 \<le> length history_flat"
    by (simp add: length_history_flat)
  have same_len: "length history_varied = length history_flat"
    by (simp add: length_history_flat length_history_varied)
  have same_act:
    "active_categories sample_lib history_flat = active_categories sample_lib history_varied"
    by (simp only: active_history_flat active_history_varied)
  have le': "cv (column sample_lib history_flat ''Groceries'')
      \<le> cv (column sample_lib history_varied ''Groceries'')"
    using cv_history_varied by (simp add: cv_history_flat)
  then have le: "\<forall>cat \<in> set (active_categories sample_lib history_flat).
      cv (column sample_lib history_flat cat) \<le> cv (column sample_lib history_varied cat)"
    unfolding active_history_flat by simp
  from len same_len last_month_history_flat last_month_history_varied sample_model_schema
    same_act active_history_flat le'
    confidence_monotone [OF len same_len last_month_history_flat last_month_history_varied
      sample_model_schema same_act le]
  show ?thesis
    by (intro conjI)
qed


end
